theory Spec2Isabelle
  imports Main
begin

unbundle bit_operations_syntax

section \<open>JavaScript values and typed arrays\<close>

text \<open>
  The emulator keeps its registers, stack and memory in typed arrays and its program
  counter, index register, stack pointer and timers in plain numbers. All numbers the
  program computes are integers, so a number is an \<^typ>\<open>int\<close>; the two other values a
  read can produce are kept apart.
\<close>

datatype jsnum = Num int | NaN | Undefined

text \<open>An exception that leaves a public method; the object keeps the state it had.\<close>

datatype error = TypeError

text \<open>
  ToInt32, ToUint8 and ToUint16 all send \<open>undefined\<close> and \<open>NaN\<close> to \<open>0\<close>; on the
  integers of this program (bytes and 16-bit words) ToInt32 is the identity.
\<close>

fun toInt :: "jsnum \<Rightarrow> int" where
  "toInt (Num n) = n"
| "toInt NaN = 0"
| "toInt Undefined = 0"

definition toUint8 :: "int \<Rightarrow> int" where
  "toUint8 n = n mod 256"

definition toUint16 :: "int \<Rightarrow> int" where
  "toUint16 n = n mod 65536"

text \<open>Addition of a number and an integer constant: \<open>undefined + 1\<close> is \<open>NaN\<close>.\<close>

fun js_add :: "jsnum \<Rightarrow> int \<Rightarrow> jsnum" where
  "js_add (Num n) k = Num (n + k)"
| "js_add NaN k = NaN"
| "js_add Undefined k = NaN"

text \<open>The comparison \<open>x >= k\<close>: false when \<open>x\<close> is not a number.\<close>

fun js_ge :: "jsnum \<Rightarrow> int \<Rightarrow> bool" where
  "js_ge (Num n) k = (k \<le> n)"
| "js_ge NaN k = False"
| "js_ge Undefined k = False"

text \<open>
  Reading a typed array outside its bounds gives \<open>undefined\<close>; writing there does
  nothing. A write converts the value to the element type.
\<close>

definition ta_get :: "int list \<Rightarrow> int \<Rightarrow> jsnum" where
  "ta_get xs k = (if 0 \<le> k \<and> k < int (length xs) then Num (xs ! nat k) else Undefined)"

fun ta_get_js :: "int list \<Rightarrow> jsnum \<Rightarrow> jsnum" where
  "ta_get_js xs (Num k) = ta_get xs k"
| "ta_get_js xs NaN = Undefined"
| "ta_get_js xs Undefined = Undefined"

definition u8_set :: "int list \<Rightarrow> int \<Rightarrow> int \<Rightarrow> int list" where
  "u8_set xs k x = (if 0 \<le> k \<and> k < int (length xs) then xs[nat k := toUint8 x] else xs)"

definition u16_set :: "int list \<Rightarrow> int \<Rightarrow> int \<Rightarrow> int list" where
  "u16_set xs k x = (if 0 \<le> k \<and> k < int (length xs) then xs[nat k := toUint16 x] else xs)"

section \<open>Constants of the emulator\<close>

text \<open>The enum \<open>Keypad\<close> is numeric: at run time a key is its number.\<close>

type_synonym Keypad = int

definition inputMap :: "(string \<times> Keypad) list" where
  "inputMap =
    [(''Digit1'', 0x1), (''Digit2'', 0x2), (''Digit3'', 0x3), (''Digit4'', 0xC),
     (''KeyQ'', 0x4), (''KeyW'', 0x5), (''KeyE'', 0x6), (''KeyR'', 0xD),
     (''KeyA'', 0x7), (''KeyS'', 0x8), (''KeyD'', 0x9), (''KeyF'', 0xE),
     (''KeyZ'', 0xA), (''KeyX'', 0x0), (''KeyC'', 0xB), (''KeyV'', 0xF)]"

abbreviation INSTRUCTION_SIZE :: int where "INSTRUCTION_SIZE \<equiv> 2"
abbreviation UINT8_MAX :: int where "UINT8_MAX \<equiv> 255"
abbreviation FONT_CHAR_WIDTH :: int where "FONT_CHAR_WIDTH \<equiv> 5"
abbreviation MEM_SIZE :: nat where "MEM_SIZE \<equiv> 4096"
abbreviation MAX_ROM_SIZE :: nat where "MAX_ROM_SIZE \<equiv> 3232"
abbreviation START_ADDR :: int where "START_ADDR \<equiv> 0x200"
abbreviation STACK_SIZE :: nat where "STACK_SIZE \<equiv> 16"
abbreviation vWidth :: int where "vWidth \<equiv> 64"
abbreviation vHeight :: int where "vHeight \<equiv> 32"

definition FONT_DATA :: "int list" where
  "FONT_DATA =
    [0xF0, 0x90, 0x90, 0x90, 0xF0,
     0x20, 0x60, 0x20, 0x20, 0x70,
     0xF0, 0x10, 0xF0, 0x80, 0xF0,
     0xF0, 0x10, 0xF0, 0x10, 0xF0,
     0x90, 0x90, 0xF0, 0x10, 0x10,
     0xF0, 0x80, 0xF0, 0x10, 0xF0,
     0xF0, 0x80, 0xF0, 0x90, 0xF0,
     0xF0, 0x10, 0x20, 0x40, 0x40,
     0xF0, 0x90, 0xF0, 0x90, 0xF0,
     0xF0, 0x90, 0xF0, 0x10, 0xF0,
     0xF0, 0x90, 0xF0, 0x90, 0x90,
     0xE0, 0x90, 0xE0, 0x90, 0xE0,
     0xF0, 0x80, 0x80, 0x80, 0xF0,
     0xE0, 0x90, 0x90, 0x90, 0xE0,
     0xF0, 0x80, 0xF0, 0x80, 0xF0,
     0xF0, 0x80, 0xF0, 0x80, 0x80]"

section \<open>The display (rendering.ts)\<close>

text \<open>
  Of \<open>Display\<close> the emulator uses the array \<open>vPixels\<close>, one \<open>on\<close> flag per pixel, row by
  row; rendering draws it and changes nothing. \<open>toggleVPixel\<close> computes the array index
  from the coordinates it is given and flips that pixel; past the end of the array the
  element is \<open>undefined\<close> and reading its \<open>on\<close> field throws.
\<close>

type_synonym vPixels = "bool list"

definition toggleVPixel :: "int \<Rightarrow> int \<Rightarrow> vPixels \<Rightarrow> (vPixels \<times> bool) option" where
  "toggleVPixel x y px =
     (let index = (y * vWidth) + x in
      if 0 \<le> index \<and> index < int (length px)
      then (let on' = \<not> px ! nat index in Some (px[nat index := on'], \<not> on'))
      else None)"

definition clear :: "vPixels \<Rightarrow> vPixels" where
  "clear px = map (\<lambda>_. False) px"

section \<open>The machine state (class Chip8)\<close>

text \<open>
  The audio nodes are outside the program; what the emulator asks of them is kept as the
  list of its requests, newest last.
\<close>

datatype tone_request = StartTone | StopTone

record chip8 =
  display :: vPixels
  pc :: jsnum
  i :: int
  v :: "int list"
  stack :: "int list"
  sp :: int
  delayTimer :: int
  soundTimer :: int
  memory :: "int list"
  awaitingKey :: bool
  keypadRegister :: "int option"
  pressedKeys :: "Keypad set"
  isBuzzing :: bool
  toneRequests :: "tone_request list"

datatype outcome = Returned chip8 | Threw error chip8

fun state_of :: "outcome \<Rightarrow> chip8" where
  "state_of (Returned s) = s"
| "state_of (Threw e s) = s"

fun and_then :: "outcome \<Rightarrow> (chip8 \<Rightarrow> outcome) \<Rightarrow> outcome" where
  "and_then (Returned s) f = f s"
| "and_then (Threw e s) f = Threw e s"

definition startBuzzer :: "chip8 \<Rightarrow> chip8" where
  "startBuzzer s = s\<lparr>toneRequests := toneRequests s @ [StartTone], isBuzzing := True\<rparr>"

definition stopBuzzer :: "chip8 \<Rightarrow> chip8" where
  "stopBuzzer s = s\<lparr>toneRequests := toneRequests s @ [StopTone], isBuzzing := False\<rparr>"

definition loadFontData :: "chip8 \<Rightarrow> chip8" where
  "loadFontData s =
     s\<lparr>memory := fold (\<lambda>k m. u8_set m (int k) (FONT_DATA ! k)) [0..<length FONT_DATA] (memory s)\<rparr>"

definition reset :: "chip8 \<Rightarrow> chip8" where
  "reset s =
     (let s1 = s\<lparr>delayTimer := 0, soundTimer := 0,
                 v := replicate 16 0,
                 stack := replicate STACK_SIZE 0,
                 sp := int STACK_SIZE - 1,
                 memory := replicate MEM_SIZE 0,
                 pc := Num START_ADDR,
                 i := 0,
                 awaitingKey := False,
                 keypadRegister := None,
                 pressedKeys := {}\<rparr>;
          s2 = loadFontData s1;
          s3 = (if isBuzzing s2 then stopBuzzer s2 else s2)
      in s3\<lparr>display := clear (display s3)\<rparr>)"

text \<open>The constructor: field initialisers, then the body.\<close>

definition new_Chip8 :: "vPixels \<Rightarrow> chip8" where
  "new_Chip8 d =
     (let s0 = \<lparr>display = d, pc = Num START_ADDR, i = 0, v = replicate 16 0,
                stack = replicate STACK_SIZE 0, sp = int STACK_SIZE - 1,
                delayTimer = 0, soundTimer = 0, memory = replicate MEM_SIZE 0,
                awaitingKey = False, keypadRegister = None, pressedKeys = {},
                isBuzzing = False, toneRequests = []\<rparr>;
          s1 = loadFontData s0
      in s1\<lparr>display := clear (display s1)\<rparr>)"

text \<open>
  \<open>loadROM\<close> of the emulator with input and audio: a reset, then the copy loop. The
  argument is a \<open>Uint8Array\<close>; \<open>rom[k]\<close> is read below \<open>rom.length\<close> only.
\<close>

definition loadROM :: "int list \<Rightarrow> chip8 \<Rightarrow> chip8" where
  "loadROM rom s =
     (let s1 = reset s;
          readSize = (if length rom \<le> MAX_ROM_SIZE then length rom else MAX_ROM_SIZE)
      in s1\<lparr>memory :=
            fold (\<lambda>k m. let writeLoc = START_ADDR + int k in u8_set m writeLoc (rom ! k))
              [0..<readSize] (memory s1)\<rparr>)"

text \<open>\<open>loadROM\<close> of lib/emulator.ts: the same loop with no reset before it.\<close>

definition loadROM_emulator_ts :: "int list \<Rightarrow> chip8 \<Rightarrow> chip8" where
  "loadROM_emulator_ts rom s =
     (let readSize = (if length rom \<le> MAX_ROM_SIZE then length rom else MAX_ROM_SIZE)
      in s\<lparr>memory :=
            fold (\<lambda>k m. let writeLoc = START_ADDR + int k in u8_set m writeLoc (rom ! k))
              [0..<readSize] (memory s)\<rparr>)"

definition handleKeyDown :: "string \<Rightarrow> chip8 \<Rightarrow> chip8" where
  "handleKeyDown code s =
     (case map_of inputMap code of
        None \<Rightarrow> s
      | Some keypad \<Rightarrow>
          (let s1 = s\<lparr>pressedKeys := insert keypad (pressedKeys s)\<rparr> in
           case keypadRegister s1 of
             None \<Rightarrow> s1
           | Some r \<Rightarrow>
               if awaitingKey s1 \<and> r \<noteq> 0
               then s1\<lparr>v := u8_set (v s1) r keypad,
                       awaitingKey := False,
                       keypadRegister := None\<rparr>
               else s1))"

definition handleKeyUp :: "string \<Rightarrow> chip8 \<Rightarrow> chip8" where
  "handleKeyUp code s =
     (case map_of inputMap code of
        None \<Rightarrow> s
      | Some keypad \<Rightarrow>
          if keypad = 0 then s
          else s\<lparr>pressedKeys := pressedKeys s - {keypad}\<rparr>)"

definition decrementTimers :: "chip8 \<Rightarrow> chip8" where
  "decrementTimers s =
     (let s1 = (if delayTimer s > 0 then s\<lparr>delayTimer := delayTimer s - 1\<rparr> else s) in
      if soundTimer s1 > 0 then s1\<lparr>soundTimer := soundTimer s1 - 1\<rparr>
      else if isBuzzing s1 then stopBuzzer s1
      else s1)"

section \<open>Fetch and decode\<close>

text \<open>
  \<open>readWord\<close> returns the opcode and advances the program counter. The two bytes come
  from memory, so \<open>byte0 << 8 | byte1\<close> is below \<open>2 ^ 16\<close>; a byte read outside memory is
  \<open>undefined\<close> and counts as \<open>0\<close> in the bit operations.
\<close>

definition readWord :: "chip8 \<Rightarrow> int \<times> chip8" where
  "readWord s =
     (let byte0 = ta_get_js (memory s) (pc s);
          byte1 = ta_get_js (memory s) (js_add (pc s) 1);
          s1 = s\<lparr>pc := js_add (pc s) INSTRUCTION_SIZE\<rparr>;
          s2 = (if js_ge (pc s1) 0x1000 then s1\<lparr>pc := Num START_ADDR\<rparr> else s1)
      in (push_bit 8 (toInt byte0) OR toInt byte1, s2))"

datatype ArgLayout = XNN | XYZ

fun splitArgs :: "int \<Rightarrow> ArgLayout \<Rightarrow> int list" where
  "splitArgs args XNN =
     (let register = drop_bit 8 args AND 0xF;
          immediate = args AND 0xFF
      in [register, immediate])"
| "splitArgs args XYZ =
     (let regX = drop_bit 8 args AND 0xF;
          regY = drop_bit 4 args AND 0xF;
          z = args AND 0xF
      in [regX, regY, z])"

section \<open>Instructions\<close>

text \<open>
  A register is read at an index that \<open>splitArgs\<close> masked to four bits, at a loop
  counter up to such an index, or at a constant, so the read is inside the sixteen
  elements.
\<close>

definition vreg :: "chip8 \<Rightarrow> int \<Rightarrow> int" where
  "vreg s k = v s ! nat k"

definition callSubroutine :: "int \<Rightarrow> chip8 \<Rightarrow> chip8" where
  "callSubroutine args s =
     (let s1 = s\<lparr>stack := u16_set (stack s) (sp s) (toInt (pc s))\<rparr>;
          s2 = s1\<lparr>sp := sp s1 - 1\<rparr>
      in s2\<lparr>pc := Num args\<rparr>)"

definition returnFromSubroutine :: "chip8 \<Rightarrow> chip8" where
  "returnFromSubroutine s =
     (let s1 = s\<lparr>sp := sp s + 1\<rparr>
      in s1\<lparr>pc := ta_get (stack s1) (sp s1)\<rparr>)"

definition setRegister :: "int \<Rightarrow> chip8 \<Rightarrow> chip8" where
  "setRegister args s =
     (let regIdx = splitArgs args XNN ! 0; immediate = splitArgs args XNN ! 1
      in s\<lparr>v := u8_set (v s) regIdx immediate\<rparr>)"

definition addToRegister :: "int \<Rightarrow> chip8 \<Rightarrow> chip8" where
  "addToRegister args s =
     (let regIdx = splitArgs args XNN ! 0; immediate = splitArgs args XNN ! 1
      in s\<lparr>v := u8_set (v s) regIdx (vreg s regIdx + immediate)\<rparr>)"

text \<open>
  \<open>bitAndMathOps\<close>, case by case in the order of the \<open>switch\<close>. Every case reads the
  registers back from the array after each store. In case \<open>0x4\<close> the statement
  \<open>this.v[idxX] - UINT8_MAX;\<close> computes a value and drops it, so the branch only sets
  \<open>VF\<close>.
\<close>

definition bitAndMathOps :: "int \<Rightarrow> chip8 \<Rightarrow> chip8" where
  "bitAndMathOps args s =
     (let idxX = splitArgs args XYZ ! 0; idxY = splitArgs args XYZ ! 1;
          z = splitArgs args XYZ ! 2
      in
      if z = 0x0 then s\<lparr>v := u8_set (v s) idxX (vreg s idxY)\<rparr>
      else if z = 0x1 then s\<lparr>v := u8_set (v s) idxX (vreg s idxX OR vreg s idxY)\<rparr>
      else if z = 0x2 then s\<lparr>v := u8_set (v s) idxX (vreg s idxX AND vreg s idxY)\<rparr>
      else if z = 0x3 then s\<lparr>v := u8_set (v s) idxX (vreg s idxX XOR vreg s idxY)\<rparr>
      else if z = 0x4 then
        (let s1 = s\<lparr>v := u8_set (v s) idxX (vreg s idxX + vreg s idxY)\<rparr> in
         if vreg s1 idxX > UINT8_MAX
         then s1\<lparr>v := u8_set (v s1) 0xF 1\<rparr>
         else s1)
      else if z = 0x5 then
        (let s1 = s\<lparr>v := u8_set (v s) idxX (vreg s idxX - vreg s idxY)\<rparr> in
         if vreg s1 idxX < 0
         then (let s2 = s1\<lparr>v := u8_set (v s1) 0xF 0\<rparr>
               in s2\<lparr>v := u8_set (v s2) idxX (UINT8_MAX + vreg s2 idxX)\<rparr>)
         else s1\<lparr>v := u8_set (v s1) 0xF 1\<rparr>)
      else if z = 0x6 then
        (let s1 = s\<lparr>v := u8_set (v s) 0xF (vreg s idxX AND 1)\<rparr>
         in s1\<lparr>v := u8_set (v s1) idxX (drop_bit 1 (vreg s1 idxX))\<rparr>)
      else if z = 0x7 then
        (let s1 = s\<lparr>v := u8_set (v s) idxX (vreg s idxY - vreg s idxX)\<rparr> in
         if vreg s1 idxX < 0
         then (let s2 = s1\<lparr>v := u8_set (v s1) 0xF 0\<rparr>
               in s2\<lparr>v := u8_set (v s2) idxX (UINT8_MAX + vreg s2 idxX)\<rparr>)
         else s1\<lparr>v := u8_set (v s1) 0xF 1\<rparr>)
      else if z = 0xE then
        (let s1 = s\<lparr>v := u8_set (v s) 0xF (vreg s idxX AND 128)\<rparr>
         in s1\<lparr>v := u8_set (v s1) idxX (push_bit 1 (vreg s1 idxX))\<rparr>)
      else s)"

definition skipIfVXeqNN :: "int \<Rightarrow> chip8 \<Rightarrow> chip8" where
  "skipIfVXeqNN args s =
     (let regIdx = splitArgs args XNN ! 0; immediate = splitArgs args XNN ! 1
      in if vreg s regIdx = immediate then s\<lparr>pc := js_add (pc s) INSTRUCTION_SIZE\<rparr> else s)"

definition skipIfVXneqNN :: "int \<Rightarrow> chip8 \<Rightarrow> chip8" where
  "skipIfVXneqNN args s =
     (let regIdx = splitArgs args XNN ! 0; immediate = splitArgs args XNN ! 1
      in if vreg s regIdx \<noteq> immediate then s\<lparr>pc := js_add (pc s) INSTRUCTION_SIZE\<rparr> else s)"

definition skipIfVXeqVY :: "int \<Rightarrow> chip8 \<Rightarrow> chip8" where
  "skipIfVXeqVY args s =
     (let idxX = splitArgs args XYZ ! 0; idxY = splitArgs args XYZ ! 1
      in if vreg s idxX = vreg s idxY then s\<lparr>pc := js_add (pc s) INSTRUCTION_SIZE\<rparr> else s)"

definition skipIfVXneqVY :: "int \<Rightarrow> chip8 \<Rightarrow> chip8" where
  "skipIfVXneqVY args s =
     (let idxX = splitArgs args XYZ ! 0; idxY = splitArgs args XYZ ! 1
      in if vreg s idxX \<noteq> vreg s idxY then s\<lparr>pc := js_add (pc s) INSTRUCTION_SIZE\<rparr> else s)"

text \<open>
  \<open>randByte\<close> takes the integer part of \<open>Math.random() * 255\<close> as its argument \<open>rnd\<close>.
\<close>

definition randByte :: "int \<Rightarrow> int \<Rightarrow> chip8 \<Rightarrow> chip8" where
  "randByte rnd args s =
     (let regIdx = splitArgs args XNN ! 0; immediate = splitArgs args XNN ! 1;
          randByte = rnd AND immediate
      in s\<lparr>v := u8_set (v s) regIdx randByte\<rparr>)"

text \<open>
  \<open>drawSprite\<close>: the body of the inner loop, the inner loop over the eight columns of a
  row, and the outer loop over the rows. A throw of \<open>toggleVPixel\<close> ends the instruction
  with the pixels toggled so far.
\<close>

definition drawSprite_pixel :: "int \<Rightarrow> int \<Rightarrow> int \<Rightarrow> nat \<Rightarrow> nat \<Rightarrow> chip8 \<Rightarrow> outcome" where
  "drawSprite_pixel spriteLine x y row col s =
     (let bit = drop_bit (7 - col) spriteLine AND 1;
          locX = x + int col;
          locY = y + int row
      in
      if bit = 1 then
        (case toggleVPixel locX locY (display s) of
           None \<Rightarrow> Threw TypeError s
         | Some (px, didUnset) \<Rightarrow>
             (let s1 = s\<lparr>display := px\<rparr> in
              if didUnset then Returned (s1\<lparr>v := u8_set (v s1) 0xF 1\<rparr>) else Returned s1))
      else Returned s)"

definition drawSprite_row :: "int \<Rightarrow> int \<Rightarrow> nat \<Rightarrow> chip8 \<Rightarrow> outcome" where
  "drawSprite_row x y row s =
     (let readLoc = i s + int row;
          spriteLine = toInt (ta_get (memory s) readLoc)
      in fold (\<lambda>col r. and_then r (drawSprite_pixel spriteLine x y row col)) [0..<8]
           (Returned s))"

definition drawSprite :: "int \<Rightarrow> chip8 \<Rightarrow> outcome" where
  "drawSprite args s =
     (let idxX = splitArgs args XYZ ! 0; idxY = splitArgs args XYZ ! 1;
          height = splitArgs args XYZ ! 2;
          x = vreg s idxX mod vWidth;
          y = vreg s idxY mod vHeight
      in fold (\<lambda>row r. and_then r (drawSprite_row x y row)) [0..<nat height] (Returned s))"

definition regDump :: "int \<Rightarrow> chip8 \<Rightarrow> chip8" where
  "regDump stopIdx s =
     fold (\<lambda>k t. let writeLoc = i t + int k
                 in t\<lparr>memory := u8_set (memory t) writeLoc (vreg t (int k))\<rparr>)
       [0..<nat (stopIdx + 1)] s"

definition regLoad :: "int \<Rightarrow> chip8 \<Rightarrow> chip8" where
  "regLoad stopIdx s =
     fold (\<lambda>k t. let readLoc = i t + int k
                 in t\<lparr>v := u8_set (v t) (int k) (toInt (ta_get (memory t) readLoc))\<rparr>)
       [0..<nat (stopIdx + 1)] s"

text \<open>
  \<open>setBCD\<close>: \<open>tens\<close> is a multiple of ten and \<open>hundreds\<close> of a hundred, so the two
  divisions are exact.
\<close>

definition setBCD :: "int \<Rightarrow> chip8 \<Rightarrow> chip8" where
  "setBCD vIdx s =
     (let num = vreg s vIdx;
          ones = num mod 10;
          tens = (num - ones) mod 100;
          hundreds = (num - (tens + ones)) mod 1000;
          s1 = s\<lparr>memory := u8_set (memory s) (i s) (hundreds div 100)\<rparr>;
          s2 = s1\<lparr>memory := u8_set (memory s1) (i s1 + 1) (tens div 10)\<rparr>
      in s2\<lparr>memory := u8_set (memory s2) (i s2 + 2) ones\<rparr>)"

definition miscOps :: "int \<Rightarrow> chip8 \<Rightarrow> chip8" where
  "miscOps args s =
     (let idxX = splitArgs args XNN ! 0; n = splitArgs args XNN ! 1 in
      if n = 0x07 then s\<lparr>v := u8_set (v s) idxX (delayTimer s)\<rparr>
      else if n = 0x0A then s\<lparr>awaitingKey := True, keypadRegister := Some idxX\<rparr>
      else if n = 0x15 then s\<lparr>delayTimer := vreg s idxX\<rparr>
      else if n = 0x18 then
        (let s1 = s\<lparr>soundTimer := vreg s idxX\<rparr> in
         if \<not> isBuzzing s1 \<and> soundTimer s1 > 0 then startBuzzer s1 else s1)
      else if n = 0x1E then s\<lparr>i := i s + vreg s idxX\<rparr>
      else if n = 0x29 then s\<lparr>i := vreg s idxX * FONT_CHAR_WIDTH\<rparr>
      else if n = 0x33 then setBCD idxX s
      else if n = 0x55 then regDump idxX s
      else if n = 0x65 then regLoad idxX s
      else s)"

definition inputBranching :: "int \<Rightarrow> chip8 \<Rightarrow> chip8" where
  "inputBranching args s =
     (let idxX = splitArgs args XNN ! 0; n = splitArgs args XNN ! 1;
          expectedKey = vreg s idxX in
      if n = 0x9E then
        (if expectedKey \<in> pressedKeys s then s\<lparr>pc := js_add (pc s) INSTRUCTION_SIZE\<rparr> else s)
      else if n = 0xA1 then
        (if expectedKey \<notin> pressedKeys s then s\<lparr>pc := js_add (pc s) INSTRUCTION_SIZE\<rparr> else s)
      else s)"

section \<open>The instruction cycle\<close>

definition step :: "int \<Rightarrow> chip8 \<Rightarrow> outcome" where
  "step rnd s =
     (if awaitingKey s then Returned s
      else
        (let opcode = fst (readWord s); s1 = snd (readWord s);
             category = drop_bit 12 opcode;
             args = opcode AND 0x0FFF
         in
         if category = 0x0 then
           (if args = 0x0E0 then Returned (s1\<lparr>display := clear (display s1)\<rparr>)
            else if args = 0x0EE then Returned (returnFromSubroutine s1)
            else Returned s1)
         else if category = 0x1 then Returned (s1\<lparr>pc := Num args\<rparr>)
         else if category = 0x2 then Returned (callSubroutine args s1)
         else if category = 0x3 then Returned (skipIfVXeqNN args s1)
         else if category = 0x4 then Returned (skipIfVXneqNN args s1)
         else if category = 0x5 then Returned (skipIfVXeqVY args s1)
         else if category = 0x6 then Returned (setRegister args s1)
         else if category = 0x7 then Returned (addToRegister args s1)
         else if category = 0x8 then Returned (bitAndMathOps args s1)
         else if category = 0x9 then Returned (skipIfVXneqVY args s1)
         else if category = 0xA then Returned (s1\<lparr>i := args\<rparr>)
         else if category = 0xB then Returned (s1\<lparr>pc := Num (vreg s1 0x0 + args)\<rparr>)
         else if category = 0xC then Returned (randByte rnd args s1)
         else if category = 0xD then drawSprite args s1
         else if category = 0xE then Returned (inputBranching args s1)
         else if category = 0xF then Returned (miscOps args s1)
         else Returned s1))"

text \<open>Running the machine: one \<open>step\<close> per random draw, until a step throws.\<close>

fun steps :: "int list \<Rightarrow> chip8 \<Rightarrow> outcome" where
  "steps [] s = Returned s"
| "steps (rnd # rnds) s = and_then (step rnd s) (steps rnds)"

section \<open>A machine to run\<close>

text \<open>
  \<open>Display.makeVPixelArray\<close> pushes one pixel per column of every row, all off; the page
  constructs the emulator on that display.
\<close>

definition makeVPixelArray :: vPixels where
  "makeVPixelArray = replicate (nat (vHeight * vWidth)) False"

definition machine :: chip8 where
  "machine = new_Chip8 makeVPixelArray"

text \<open>
  Two programs of nested calls. \<open>callChain\<close> is a ROM of seventeen \<open>2NNN\<close> instructions,
  each calling the address right after itself; \<open>callTargets\<close> are the targets of its
  first sixteen.
\<close>

definition callChain :: "int list" where
  "callChain =
     [0x22, 0x02, 0x22, 0x04, 0x22, 0x06, 0x22, 0x08, 0x22, 0x0A, 0x22, 0x0C,
      0x22, 0x0E, 0x22, 0x10, 0x22, 0x12, 0x22, 0x14, 0x22, 0x16, 0x22, 0x18,
      0x22, 0x1A, 0x22, 0x1C, 0x22, 0x1E, 0x22, 0x20, 0x22, 0x22]"

definition callTargets :: "int list" where
  "callTargets = [0x202, 0x204, 0x206, 0x208, 0x20A, 0x20C, 0x20E, 0x210,
                  0x212, 0x214, 0x216, 0x218, 0x21A, 0x21C, 0x21E, 0x220]"

section \<open>The public operations and the register invariant\<close>

text \<open>
  The page and the timers drive the emulator through \<open>step\<close>, the 60 Hz tick
  (\<open>decrementTimers\<close>), the two key handlers, \<open>reset\<close> and \<open>loadROM\<close>. After a \<open>step\<close>
  that throws, the object is in the state it had at the throw.
\<close>

datatype operation =
  Step int | Tick | KeyDown string | KeyUp string | Reset | LoadROM "int list"

fun perform :: "operation \<Rightarrow> chip8 \<Rightarrow> chip8" where
  "perform (Step rnd) s = state_of (step rnd s)"
| "perform Tick s = decrementTimers s"
| "perform (KeyDown code) s = handleKeyDown code s"
| "perform (KeyUp code) s = handleKeyUp code s"
| "perform Reset s = reset s"
| "perform (LoadROM rom) s = loadROM rom s"

definition run :: "operation list \<Rightarrow> chip8 \<Rightarrow> chip8" where
  "run ops s = fold perform ops s"

text \<open>Sixteen registers, each an integer from 0 to 255.\<close>

definition regs_ok :: "chip8 \<Rightarrow> bool" where
  "regs_ok s = (length (v s) = 16 \<and> list_all (\<lambda>x. 0 \<le> x \<and> x \<le> 255) (v s))"

section \<open>What a sprite covers\<close>

text \<open>
  The sprite of height \<open>h\<close> that the index register points to, placed with its top left
  corner at \<open>(x, y)\<close>, has a set bit at the pixel \<open>(px, py)\<close>: the pixel is inside the
  eight columns and \<open>h\<close> rows, and its bit in the row's byte, most significant bit
  first, is 1.
\<close>

definition sprite_covers :: "chip8 \<Rightarrow> int \<Rightarrow> int \<Rightarrow> int \<Rightarrow> int \<Rightarrow> int \<Rightarrow> bool" where
  "sprite_covers s x y h px py =
     (x \<le> px \<and> px < x + 8 \<and> y \<le> py \<and> py < y + h \<and>
      drop_bit (7 - nat (px - x)) (toInt (ta_get (memory s) (i s + (py - y)))) AND 1 = 1)"

section \<open>Basic facts\<close>

lemma replicate16: "replicate 16 (0::int) = [0, 0, 0, 0, 0, 0, 0, 0, 0, 0, 0, 0, 0, 0, 0, 0]"
  by (simp add: numeral_eq_Suc)

lemma new_Chip8_fields:
  "v (new_Chip8 d) = replicate 16 0"
  "awaitingKey (new_Chip8 d) = False"
  "keypadRegister (new_Chip8 d) = None"
  "pressedKeys (new_Chip8 d) = {}"
  "isBuzzing (new_Chip8 d) = False"
  "toneRequests (new_Chip8 d) = []"
  "soundTimer (new_Chip8 d) = 0"
  "delayTimer (new_Chip8 d) = 0"
  "sp (new_Chip8 d) = 15"
  "pc (new_Chip8 d) = Num 0x200"
  "i (new_Chip8 d) = 0"
  "stack (new_Chip8 d) = replicate 16 0"
  "display (new_Chip8 d) = clear d"
  by (simp_all add: new_Chip8_def loadFontData_def Let_def)

lemma reset_fields:
  "v (reset s) = replicate 16 0"
  "awaitingKey (reset s) = False"
  "keypadRegister (reset s) = None"
  "pressedKeys (reset s) = {}"
  "isBuzzing (reset s) = False"
  "soundTimer (reset s) = 0"
  "delayTimer (reset s) = 0"
  "sp (reset s) = 15"
  "pc (reset s) = Num 0x200"
  "i (reset s) = 0"
  "stack (reset s) = replicate 16 0"
  "display (reset s) = clear (display s)"
  by (simp_all add: reset_def loadFontData_def stopBuzzer_def Let_def)

lemma splitArgs_numeral:
  "splitArgs (numeral n) XNN ! 0 = drop_bit 8 (numeral n) AND 0xF"
  "splitArgs (numeral n) XNN ! 1 = numeral n AND 0xFF"
  "splitArgs (numeral n) XYZ ! 0 = drop_bit 8 (numeral n) AND 0xF"
  "splitArgs (numeral n) XYZ ! 1 = drop_bit 4 (numeral n) AND 0xF"
  "splitArgs (numeral n) XYZ ! 2 = numeral n AND 0xF"
  by (simp_all add: Let_def)

lemma machine_fields:
  "v machine = replicate 16 0"
  "awaitingKey machine = False"
  "keypadRegister machine = None"
  "pressedKeys machine = {}"
  "isBuzzing machine = False"
  "toneRequests machine = []"
  "soundTimer machine = 0"
  "i machine = 0"
  "display machine = clear makeVPixelArray"
  by (simp_all add: machine_def new_Chip8_fields)

lemma loadROM_fields:
  "v (loadROM rom s) = replicate 16 0"
  "awaitingKey (loadROM rom s) = False"
  "keypadRegister (loadROM rom s) = None"
  "sp (loadROM rom s) = 15"
  "pc (loadROM rom s) = Num 0x200"
  "i (loadROM rom s) = 0"
  "stack (loadROM rom s) = replicate 16 0"
  "display (loadROM rom s) = clear (display s)"
  by (simp_all add: loadROM_def Let_def reset_fields)

lemmas eval_simps = machine_fields replicate16 splitArgs_numeral u8_set_def toUint8_def
  vreg_def Let_def

lemma length_u8_set [simp]: "length (u8_set xs k x) = length xs"
  by (simp add: u8_set_def)

lemma length_fold_u8_set [simp]:
  "length (fold (\<lambda>k m. u8_set m (f k) (g k)) ks m) = length m"
  by (induction ks arbitrary: m) simp_all

lemma length_memory_reset [simp]: "length (memory (reset s)) = 4096"
  by (simp add: reset_def loadFontData_def stopBuzzer_def Let_def)

lemma length_memory_new_Chip8 [simp]: "length (memory (new_Chip8 d)) = 4096"
  by (simp add: new_Chip8_def loadFontData_def Let_def)

lemma toUint8_byte: "0 \<le> b \<Longrightarrow> b \<le> 255 \<Longrightarrow> toUint8 b = b"
  by (simp add: toUint8_def)

section \<open>Loading a ROM\<close>

text \<open>
  A loop that stores \<open>src[k]\<close> at \<open>off + k\<close> for \<open>k\<close> below \<open>n\<close> replaces that stretch of
  the array and nothing else.
\<close>

lemma fold_u8_set_copy:
  assumes "off + n \<le> length m" and "n \<le> length src"
  shows "fold (\<lambda>k m. u8_set m (int off + int k) (src ! k)) [0..<n] m =
         take off m @ map toUint8 (take n src) @ drop (off + n) m"
  using assms
proof (induction n)
  case 0
  then show ?case by simp
next
  case (Suc n)
  let ?done = "take off m @ map toUint8 (take n src) @ drop (off + n) m"
  have len: "length ?done = length m" using Suc.prems by simp
  have IH: "fold (\<lambda>k m. u8_set m (int off + int k) (src ! k)) [0..<n] m = ?done"
    using Suc by simp
  have "u8_set ?done (int off + int n) (src ! n) = ?done[off + n := toUint8 (src ! n)]"
    using Suc.prems len by (simp add: u8_set_def nat_add_distrib del: length_append)
  also have "\<dots> = take off m @ map toUint8 (take n src) @ (drop (off + n) m)[0 := toUint8 (src ! n)]"
    using Suc.prems by (simp add: list_update_append)
  also have "(drop (off + n) m)[0 := toUint8 (src ! n)] = toUint8 (src ! n) # drop (off + Suc n) m"
  proof -
    have "off + n < length m" using Suc.prems by simp
    then have "drop (off + n) m = m ! (off + n) # drop (Suc (off + n)) m"
      by (simp add: Cons_nth_drop_Suc)
    then show ?thesis by simp
  qed
  also have "take off m @ map toUint8 (take n src) @ toUint8 (src ! n) # drop (off + Suc n) m
       = take off m @ map toUint8 (take (Suc n) src) @ drop (off + Suc n) m"
    using Suc.prems by (simp add: take_Suc_conv_app_nth)
  finally show ?case using IH by simp
qed

lemma copy_loop:
  assumes "list_all (\<lambda>b. 0 \<le> b \<and> b \<le> 255) rom" and "length m = 4096"
  shows "fold (\<lambda>k m. u8_set m (START_ADDR + int k) (rom ! k))
           [0..<(if length rom \<le> MAX_ROM_SIZE then length rom else MAX_ROM_SIZE)] m =
         take 0x200 m @ take MAX_ROM_SIZE rom @ drop (0x200 + min (length rom) MAX_ROM_SIZE) m"
proof -
  let ?n = "min (length rom) MAX_ROM_SIZE"
  have n: "(if length rom \<le> MAX_ROM_SIZE then length rom else MAX_ROM_SIZE) = ?n"
    by simp
  have "fold (\<lambda>k m. u8_set m (int 0x200 + int k) (rom ! k)) [0..<?n] m =
        take 0x200 m @ map toUint8 (take ?n rom) @ drop (0x200 + ?n) m"
    using assms(2) by (intro fold_u8_set_copy) simp_all
  moreover have "map toUint8 (take ?n rom) = take ?n rom"
    using assms(1) by (intro map_idI toUint8_byte) (auto simp: list_all_iff dest: in_set_takeD)
  moreover have "take ?n rom = take MAX_ROM_SIZE rom"
    by (simp add: min_def)
  ultimately show ?thesis unfolding n by simp
qed

lemma memory_loadROM:
  assumes "list_all (\<lambda>b. 0 \<le> b \<and> b \<le> 255) rom"
  shows "memory (loadROM rom s) =
         take 0x200 (memory (reset s)) @ take MAX_ROM_SIZE rom @
         drop (0x200 + min (length rom) MAX_ROM_SIZE) (memory (reset s))"
  by (simp add: loadROM_def Let_def copy_loop [OF assms])

lemma ta_get_loadROM:
  assumes "list_all (\<lambda>b. 0 \<le> b \<and> b \<le> 255) rom" and "length rom \<le> MAX_ROM_SIZE"
    and "0x200 \<le> a" and "a < 0x200 + int (length rom)"
  shows "ta_get (memory (loadROM rom s)) a = Num (rom ! nat (a - 0x200))"
proof -
  have "nat a = 512 + nat (a - 0x200)" using assms(3) by simp
  moreover have "nat (a - 0x200) < length rom" using assms(3,4) by simp
  ultimately have "memory (loadROM rom s) ! nat a = rom ! nat (a - 0x200)"
    using assms(2) by (simp add: memory_loadROM [OF assms(1)] nth_append del: nat_diff_distrib')
  moreover have "length (memory (loadROM rom s)) = 4096"
    using assms(2) by (simp add: memory_loadROM [OF assms(1)])
  ultimately show ?thesis using assms(2,3,4) by (simp add: ta_get_def)
qed

text \<open>
  C8. \<open>loadROM\<close> copies the first \<open>min (length rom) 3232\<close> bytes of \<open>rom\<close> to the
  addresses from \<open>0x200\<close> on and changes no other byte: with the reset of the full
  emulator the rest of memory, and of the machine, is as the reset left it; in
  lib/emulator.ts, which does not reset, the rest is as it was before the call. Neither
  function has a failing branch, whatever the length of \<open>rom\<close>. The bytes of \<open>rom\<close> are
  those of a \<open>Uint8Array\<close>.
\<close>

theorem loadROM_copies_rom:
  assumes "list_all (\<lambda>b. 0 \<le> b \<and> b \<le> 255) rom"
  shows "loadROM rom s =
           (reset s)\<lparr>memory := take 0x200 (memory (reset s)) @ take MAX_ROM_SIZE rom @
                        drop (0x200 + min (length rom) MAX_ROM_SIZE) (memory (reset s))\<rparr> \<and>
         (length (memory s) = MEM_SIZE \<longrightarrow>
          loadROM_emulator_ts rom s =
            s\<lparr>memory := take 0x200 (memory s) @ take MAX_ROM_SIZE rom @
                  drop (0x200 + min (length rom) MAX_ROM_SIZE) (memory s)\<rparr>)"
proof (intro conjI impI)
  show "loadROM rom s =
           (reset s)\<lparr>memory := take 0x200 (memory (reset s)) @ take MAX_ROM_SIZE rom @
                        drop (0x200 + min (length rom) MAX_ROM_SIZE) (memory (reset s))\<rparr>"
    by (simp add: loadROM_def Let_def copy_loop [OF assms])
next
  assume "length (memory s) = MEM_SIZE"
  then show "loadROM_emulator_ts rom s =
            s\<lparr>memory := take 0x200 (memory s) @ take MAX_ROM_SIZE rom @
                  drop (0x200 + min (length rom) MAX_ROM_SIZE) (memory s)\<rparr>"
    by (simp add: loadROM_emulator_ts_def Let_def copy_loop [OF assms])
qed

text \<open>A ROM of 4000 bytes \<open>0xAB\<close>: the first 3232 are copied, to \<open>0x200 .. 0xE9F\<close>.\<close>

theorem loadROM_copies_rom_witness:
  "list_all (\<lambda>b. 0 \<le> b \<and> b \<le> (255::int)) (replicate 4000 0xAB) \<and>
   length (memory machine) = MEM_SIZE \<and>
   loadROM (replicate 4000 0xAB) machine =
     (reset machine)\<lparr>memory := take 0x200 (memory (reset machine)) @ replicate 3232 0xAB @
                           drop 0xEA0 (memory (reset machine))\<rparr> \<and>
   loadROM_emulator_ts (replicate 4000 0xAB) machine =
     machine\<lparr>memory := take 0x200 (memory machine) @ replicate 3232 0xAB @
                   drop 0xEA0 (memory machine)\<rparr>"
proof -
  have bytes: "list_all (\<lambda>b. 0 \<le> b \<and> b \<le> (255::int)) (replicate 4000 0xAB)"
    by (simp add: list_all_iff)
  have len: "length (memory machine) = MEM_SIZE"
    by (simp add: machine_def)
  from loadROM_copies_rom [OF bytes, of machine] bytes len show ?thesis
    by simp
qed

section \<open>Waiting for a key\<close>

text \<open>
  C9. While the awaiting-key latch is armed, \<open>step\<close> returns at once: the machine after
  the call is the machine before it, in every field (memory, the registers, the index
  register, the program counter, the stack and its pointer, the timers, the keypad and
  the display).
\<close>

theorem step_awaiting_is_noop: "awaitingKey s \<Longrightarrow> step rnd s = Returned s"
  by (simp add: step_def)

text \<open>The latch armed by \<open>Fx0A\<close> with \<open>x = 0xA\<close> on the machine just constructed.\<close>

theorem step_awaiting_is_noop_witness:
  "awaitingKey (miscOps 0xA0A machine) \<and>
   step 0 (miscOps 0xA0A machine) = Returned (miscOps 0xA0A machine)"
proof -
  have armed: "awaitingKey (miscOps 0xA0A machine)"
    by (simp add: miscOps_def Let_def)
  from armed step_awaiting_is_noop [OF armed] show ?thesis by simp
qed

text \<open>
  C2 (the code at its failing input). \<open>F00A\<close> arms the latch on register 0; the key-down
  of \<open>KeyA\<close> (logical key 7) then only records the key as pressed: the latch stays armed
  and \<open>V0\<close> keeps its value, since \<open>handleKeyDown\<close> tests the register index for
  truthiness and 0 is falsy.
\<close>

theorem key_wait_on_V0_not_resolved:
  "awaitingKey (miscOps 0x00A machine) \<and>
   keypadRegister (miscOps 0x00A machine) = Some 0 \<and>
   map_of inputMap ''KeyA'' = Some 7 \<and>
   handleKeyDown ''KeyA'' (miscOps 0x00A machine) =
     (miscOps 0x00A machine)\<lparr>pressedKeys := {7}\<rparr>"
  by (simp add: handleKeyDown_def miscOps_def inputMap_def eval_simps)

text \<open>On every other register the key-down writes the key and disarms the latch.\<close>

lemma handleKeyDown_resolves_other_registers:
  assumes "map_of inputMap code = Some k" and "awaitingKey s"
    and "keypadRegister s = Some r" and "r \<noteq> 0"
  shows "handleKeyDown code s =
         s\<lparr>pressedKeys := insert k (pressedKeys s), v := u8_set (v s) r k,
            awaitingKey := False, keypadRegister := None\<rparr>"
  using assms by (simp add: handleKeyDown_def Let_def)

section \<open>Releasing a key\<close>

text \<open>
  C5 (the code at its failing input). \<open>KeyX\<close> maps to logical key 0. After its key-down
  the pressed set is \<open>{0}\<close>, and its key-up leaves the set as it is: \<open>handleKeyUp\<close>
  returns early on a falsy key, and key 0 is falsy.
\<close>

theorem keyUp_KeyX_keeps_key0:
  "map_of inputMap ''KeyX'' = Some 0 \<and>
   pressedKeys (handleKeyDown ''KeyX'' machine) = {0} \<and>
   pressedKeys (handleKeyUp ''KeyX'' (handleKeyDown ''KeyX'' machine)) = {0}"
  by (simp add: handleKeyUp_def handleKeyDown_def inputMap_def eval_simps)

text \<open>The fifteen other keys are removed.\<close>

lemma handleKeyUp_other_keys:
  "map_of inputMap code = Some k \<Longrightarrow> k \<noteq> 0 \<Longrightarrow>
   pressedKeys (handleKeyUp code s) = pressedKeys s - {k}"
  by (simp add: handleKeyUp_def)

section \<open>The timer tick\<close>

text \<open>
  C4, as the claim states it, fails: with the sound timer at 1 and the tone on (\<open>V0 = 1\<close>,
  then \<open>F018\<close>), one tick brings the timer to 0 and asks nothing of the audio: the
  requests are still the one start.
\<close>

theorem tick_from_one_issues_no_stop:
  "soundTimer (miscOps 0x018 (setRegister 0x001 machine)) = 1 \<and>
   isBuzzing (miscOps 0x018 (setRegister 0x001 machine)) \<and>
   toneRequests (miscOps 0x018 (setRegister 0x001 machine)) = [StartTone] \<and>
   soundTimer (decrementTimers (miscOps 0x018 (setRegister 0x001 machine))) = 0 \<and>
   toneRequests (decrementTimers (miscOps 0x018 (setRegister 0x001 machine))) = [StartTone]"
  by (simp add: decrementTimers_def miscOps_def setRegister_def startBuzzer_def eval_simps)

text \<open>
  C4, amended. If the sound timer is 1 and the tone is on, one tick leaves the timer at 0
  with the tone still on and no stop request; the tick after it issues exactly one stop
  request and turns the tone off.
\<close>

theorem tick_stops_tone_one_tick_later:
  assumes "soundTimer s = 1" and "isBuzzing s"
  shows "soundTimer (decrementTimers s) = 0 \<and>
         toneRequests (decrementTimers s) = toneRequests s \<and>
         isBuzzing (decrementTimers s) \<and>
         soundTimer (decrementTimers (decrementTimers s)) = 0 \<and>
         toneRequests (decrementTimers (decrementTimers s)) = toneRequests s @ [StopTone] \<and>
         \<not> isBuzzing (decrementTimers (decrementTimers s))"
  using assms by (simp add: decrementTimers_def stopBuzzer_def Let_def)

theorem tick_stops_tone_one_tick_later_witness:
  "soundTimer (miscOps 0x018 (setRegister 0x001 machine)) = 1 \<and>
   isBuzzing (miscOps 0x018 (setRegister 0x001 machine)) \<and>
   toneRequests (decrementTimers (miscOps 0x018 (setRegister 0x001 machine))) = [StartTone] \<and>
   toneRequests (decrementTimers (decrementTimers (miscOps 0x018 (setRegister 0x001 machine)))) =
     [StartTone, StopTone]"
proof -
  let ?s = "miscOps 0x018 (setRegister 0x001 machine)"
  have one: "soundTimer ?s = 1" and buzz: "isBuzzing ?s" and req: "toneRequests ?s = [StartTone]"
    by (simp_all add: miscOps_def setRegister_def startBuzzer_def eval_simps)
  from tick_stops_tone_one_tick_later [OF one buzz] one buzz req show ?thesis
    by simp
qed

section \<open>Arithmetic instructions\<close>

text \<open>
  C1 (the code at its failing input). With \<open>V0 = 250\<close> and \<open>V1 = 10\<close>, \<open>8014\<close> leaves
  \<open>V0 = 4\<close> and \<open>VF = 0\<close>: the sum is stored, and so wrapped, before it is compared with
  255, and the comparison reads the wrapped value back.
\<close>

theorem add_with_carry_leaves_VF:
  "v (setRegister 0x10A (setRegister 0x0FA machine)) =
     [250, 10, 0, 0, 0, 0, 0, 0, 0, 0, 0, 0, 0, 0, 0, 0] \<and>
   v (bitAndMathOps 0x014 (setRegister 0x10A (setRegister 0x0FA machine))) =
     [4, 10, 0, 0, 0, 0, 0, 0, 0, 0, 0, 0, 0, 0, 0, 0]"
  by (simp add: bitAndMathOps_def setRegister_def eval_simps)

text \<open>On no input does \<open>8xy4\<close> write \<open>VF\<close>: its carry branch is never taken.\<close>

lemma splitArgs_index:
  "0 \<le> splitArgs args l ! 0 \<and> splitArgs args l ! 0 < 16"
  by (cases l) (simp_all add: Let_def AND_upper2'')

lemma vreg_u8_set_le:
  assumes "regs_ok s" "0 \<le> k" "k < 16"
  shows "vreg (s\<lparr>v := u8_set (v s) k x\<rparr>) k \<le> 255"
  using assms by (simp add: vreg_def u8_set_def regs_ok_def toUint8_def)

lemma add_with_carry_branch_dead:
  assumes "regs_ok s" and "splitArgs args XYZ ! 2 = 4"
  shows "bitAndMathOps args s =
         s\<lparr>v := u8_set (v s) (splitArgs args XYZ ! 0)
                 (vreg s (splitArgs args XYZ ! 0) + vreg s (splitArgs args XYZ ! 1))\<rparr>"
proof -
  have "\<not> vreg (s\<lparr>v := u8_set (v s) (splitArgs args XYZ ! 0)
                 (vreg s (splitArgs args XYZ ! 0) + vreg s (splitArgs args XYZ ! 1))\<rparr>)
            (splitArgs args XYZ ! 0) > 255"
    using vreg_u8_set_le [OF assms(1)] splitArgs_index [of args XYZ] by (simp add: not_less)
  then show ?thesis
    using assms(2) unfolding bitAndMathOps_def Let_def by simp
qed

text \<open>
  C6 (the code at its failing input). With \<open>V0 = 0x81\<close>, \<open>800E\<close> leaves \<open>V0 = 2\<close>, the
  doubled value modulo 256, and \<open>VF = 128\<close>: the flag is the register masked with
  \<open>0b10000000\<close>, not the bit shifted out.
\<close>

theorem shift_left_flag_is_128:
  "v (setRegister 0x081 machine) = [129, 0, 0, 0, 0, 0, 0, 0, 0, 0, 0, 0, 0, 0, 0, 0] \<and>
   v (bitAndMathOps 0x00E (setRegister 0x081 machine)) =
     [2, 0, 0, 0, 0, 0, 0, 0, 0, 0, 0, 0, 0, 0, 0, 128]"
  by (simp add: bitAndMathOps_def setRegister_def eval_simps)

section \<open>The call stack\<close>

lemma callChain_bytes: "list_all (\<lambda>b. 0 \<le> b \<and> b \<le> 255) callChain"
  by (simp add: callChain_def)

lemma callChain_length: "length callChain = 34"
  by (simp add: callChain_def)

lemma callChain_read:
  "0x200 \<le> a \<Longrightarrow> a < 0x222 \<Longrightarrow>
   ta_get (memory (loadROM callChain s)) a = Num (callChain ! nat (a - 0x200))"
  by (rule ta_get_loadROM) (simp_all add: callChain_bytes callChain_length)

lemma callChain_nth: "callChain ! n =
     [0x22, 0x02, 0x22, 0x04, 0x22, 0x06, 0x22, 0x08, 0x22, 0x0A, 0x22, 0x0C,
      0x22, 0x0E, 0x22, 0x10, 0x22, 0x12, 0x22, 0x14, 0x22, 0x16, 0x22, 0x18,
      0x22, 0x1A, 0x22, 0x1C, 0x22, 0x1E, 0x22, 0x20, 0x22, 0x22] ! n"
  by (simp add: callChain_def)

lemma replicate17:
  "replicate 17 (0::int) = [0, 0, 0, 0, 0, 0, 0, 0, 0, 0, 0, 0, 0, 0, 0, 0, 0]"
  by (simp add: numeral_eq_Suc)

text \<open>
  C3, as the claim states it, fails: seventeen steps of the ROM \<open>callChain\<close>, loaded on
  the machine, are seventeen nested calls, and all seventeen return normally. The
  sixteen return addresses \<open>0x202 .. 0x220\<close> fill the stack from the top down; the
  seventeenth, \<open>0x222\<close>, is written at index \<open>-1\<close>, that is nowhere, and the stack
  pointer goes on to \<open>-2\<close>.
\<close>

theorem seventeenth_call_returns:
  "steps (replicate 17 0) (loadROM callChain machine) =
   Returned ((loadROM callChain machine)
     \<lparr>pc := Num 0x222,
      stack := [0x220, 0x21E, 0x21C, 0x21A, 0x218, 0x216, 0x214, 0x212,
                0x210, 0x20E, 0x20C, 0x20A, 0x208, 0x206, 0x204, 0x202],
      sp := - 2\<rparr>)"
  by (simp add: replicate17 step_def readWord_def callSubroutine_def Let_def u16_set_def
      toUint16_def callChain_read callChain_nth loadROM_fields replicate16)

text \<open>
  Calls nested from a state with an empty stack: the pointer moves down by one per call
  and the return addresses fill the array from its top.
\<close>

lemma nested_calls:
  assumes "sp s = 15" and "stack s = replicate 16 0" and "pc s = Num p" and "length as \<le> 16"
  shows "sp (fold callSubroutine as s) = 15 - int (length as) \<and>
         stack (fold callSubroutine as s) =
           replicate (16 - length as) 0 @ rev (map toUint16 (butlast (p # as))) \<and>
         pc (fold callSubroutine as s) = Num (last (p # as))"
  using assms(4)
proof (induction as rule: rev_induct)
  case Nil
  then show ?case using assms(1-3) by simp
next
  case (snoc a as)
  let ?t = "fold callSubroutine as s"
  let ?n = "length as"
  have n: "?n < 16" using snoc.prems by simp
  have IH: "sp ?t = 15 - int ?n"
    "stack ?t = replicate (16 - ?n) 0 @ rev (map toUint16 (butlast (p # as)))"
    "pc ?t = Num (last (p # as))"
    using snoc by simp_all
  have len: "length (stack ?t) = 16" using n by (simp add: IH(2))
  have idx: "nat (15 - int ?n) = 15 - ?n" using n by simp
  have rep: "replicate (16 - ?n) (0::int) = replicate (15 - ?n) 0 @ [0]"
    using n by (simp add: Suc_diff_Suc replicate_append_same flip: replicate_Suc)
  have "stack (callSubroutine a ?t) = (stack ?t)[15 - ?n := toUint16 (last (p # as))]"
    using n len by (simp add: callSubroutine_def Let_def u16_set_def IH(1,3) idx)
  also have "\<dots> = replicate (15 - ?n) 0 @ toUint16 (last (p # as)) # rev (map toUint16 (butlast (p # as)))"
    unfolding IH(2) rep by (simp add: list_update_append)
  also have "toUint16 (last (p # as)) # rev (map toUint16 (butlast (p # as))) =
             rev (map toUint16 (butlast (p # as) @ [last (p # as)]))"
    by simp
  also have "butlast (p # as) @ [last (p # as)] = p # as"
    by (rule append_butlast_last_id) simp
  finally have st: "stack (callSubroutine a ?t) =
      replicate (15 - ?n) 0 @ rev (map toUint16 (p # as))" .
  have "sp (callSubroutine a ?t) = 14 - int ?n"
    by (simp add: callSubroutine_def Let_def IH(1))
  moreover have "pc (callSubroutine a ?t) = Num a"
    by (simp add: callSubroutine_def Let_def)
  ultimately show ?case using st n by (simp add: butlast_append)
qed

text \<open>
  C3, amended. From a freshly reset machine, sixteen nested calls fill the sixteen stack
  entries, each with the program counter it was made at (\<open>0x200\<close> for the first, then
  the target of the call before), and leave the stack pointer at \<open>-1\<close>. The seventeenth
  call raises nothing: it changes the stack pointer, to \<open>-2\<close>, and the program counter,
  to its target, and nothing else, so its return address is not saved.
\<close>

theorem seventeenth_call_is_silent:
  assumes "length as = 16"
  shows "sp (fold callSubroutine as (reset s)) = - 1 \<and>
         stack (fold callSubroutine as (reset s)) = rev (map toUint16 (0x200 # butlast as)) \<and>
         callSubroutine a (fold callSubroutine as (reset s)) =
           (fold callSubroutine as (reset s))\<lparr>sp := - 2, pc := Num a\<rparr>"
proof -
  let ?t = "fold callSubroutine as (reset s)"
  have ne: "as \<noteq> []" using assms by auto
  have *: "sp ?t = 15 - int (length as)"
    "stack ?t = replicate (16 - length as) 0 @ rev (map toUint16 (butlast (0x200 # as)))"
    using nested_calls [of "reset s" "0x200" as] assms by (simp_all add: reset_fields)
  have sp: "sp ?t = - 1" using * assms by simp
  have st: "stack ?t = rev (map toUint16 (0x200 # butlast as))" using * assms ne by simp
  have "callSubroutine a ?t = ?t\<lparr>sp := - 2, pc := Num a\<rparr>"
    by (simp add: callSubroutine_def Let_def u16_set_def sp)
  with sp st show ?thesis by simp
qed

theorem seventeenth_call_is_silent_witness:
  "length callTargets = 16 \<and>
   sp (fold callSubroutine callTargets (reset machine)) = - 1 \<and>
   stack (fold callSubroutine callTargets (reset machine)) =
     [0x21E, 0x21C, 0x21A, 0x218, 0x216, 0x214, 0x212, 0x210,
      0x20E, 0x20C, 0x20A, 0x208, 0x206, 0x204, 0x202, 0x200] \<and>
   callSubroutine 0x222 (fold callSubroutine callTargets (reset machine)) =
     (fold callSubroutine callTargets (reset machine))\<lparr>sp := - 2, pc := Num 0x222\<rparr>"
proof -
  have len: "length callTargets = 16" by (simp add: callTargets_def)
  have "rev (map toUint16 (0x200 # butlast callTargets)) =
     [0x21E, 0x21C, 0x21A, 0x218, 0x216, 0x214, 0x212, 0x210,
      0x20E, 0x20C, 0x20A, 0x208, 0x206, 0x204, 0x202, 0x200]"
    by (simp add: callTargets_def toUint16_def)
  with seventeenth_call_is_silent [OF len, of machine "0x222"] len show ?thesis
    by simp
qed

section \<open>Drawing a sprite\<close>

lemma FONT_DATA_length: "length FONT_DATA = 80"
  by (simp add: FONT_DATA_def)

lemma FONT_DATA_bytes: "map toUint8 FONT_DATA = FONT_DATA"
  by (simp add: FONT_DATA_def toUint8_def)

lemma memory_new_Chip8: "memory (new_Chip8 d) = FONT_DATA @ replicate 4016 0"
proof -
  have "fold (\<lambda>k m. u8_set m (int k) (FONT_DATA ! k)) [0..<length FONT_DATA] (replicate 4096 0) =
        take 0 (replicate 4096 0) @ map toUint8 (take (length FONT_DATA) FONT_DATA) @
        drop (0 + length FONT_DATA) (replicate 4096 0)"
    using fold_u8_set_copy [of 0 "length FONT_DATA" "replicate 4096 0" FONT_DATA]
    by (simp add: FONT_DATA_length)
  then show ?thesis
    by (simp add: new_Chip8_def loadFontData_def Let_def FONT_DATA_bytes FONT_DATA_length)
qed

lemma font_read:
  "0 \<le> a \<Longrightarrow> a < 80 \<Longrightarrow> ta_get (memory machine) a = Num (FONT_DATA ! nat a)"
proof -
  assume "0 \<le> a" and "a < 80"
  then have "nat a < 80" by simp
  then show ?thesis
    using \<open>0 \<le> a\<close> \<open>a < 80\<close>
    by (simp add: machine_def memory_new_Chip8 ta_get_def nth_append FONT_DATA_length)
qed

lemma display_machine: "display machine = replicate 2048 False"
  by (simp add: machine_fields clear_def makeVPixelArray_def)

lemma upt2: "[0..<2] = [0, 1]"
  by (simp add: upt_rec)

lemma upt8: "[0..<8] = [0, 1, 2, 3, 4, 5, 6, 7]"
  by (simp add: upt_rec)

lemma FONT_DATA_nth: "FONT_DATA ! n =
    [0xF0, 0x90, 0x90, 0x90, 0xF0,
     0x20, 0x60, 0x20, 0x20, 0x70,
     0xF0, 0x10, 0xF0, 0x80, 0xF0,
     0xF0, 0x10, 0xF0, 0x10, 0xF0,
     0x90, 0x90, 0xF0, 0x10, 0x10,
     0xF0, 0x80, 0xF0, 0x10, 0xF0,
     0xF0, 0x80, 0xF0, 0x90, 0xF0,
     0xF0, 0x10, 0x20, 0x40, 0x40,
     0xF0, 0x90, 0xF0, 0x90, 0xF0,
     0xF0, 0x90, 0xF0, 0x10, 0xF0,
     0xF0, 0x90, 0xF0, 0x90, 0x90,
     0xE0, 0x90, 0xE0, 0x90, 0xE0,
     0xF0, 0x80, 0x80, 0x80, 0xF0,
     0xE0, 0x90, 0x90, 0x90, 0xE0,
     0xF0, 0x80, 0xF0, 0x80, 0xF0,
     0xF0, 0x80, 0xF0, 0x80, 0x80] ! n"
  by (simp add: FONT_DATA_def)

text \<open>
  C7 (the code at its failing input). With \<open>V0 = 62\<close>, \<open>V1 = 0\<close> and the index
  register at the glyph of 0, whose first row is \<open>0xF0\<close>, the instruction \<open>D011\<close>
  toggles the array elements 62, 63, 64 and 65. Elements 64 and 65 are the pixels
  \<open>(0, 1)\<close> and \<open>(1, 1)\<close>, the start of the next row; with the x-coordinates 64 and
  65 reduced modulo 64 they would be the elements 0 and 1 of the same row.
  \<open>drawSprite\<close> reduces \<open>VX\<close> and \<open>VY\<close> modulo the width and the height and then adds
  the column and the row without reducing the sums.
\<close>

theorem sprite_past_right_edge_lands_in_next_row:
  "drawSprite 0x011 (setRegister 0x03E machine) =
   Returned ((setRegister 0x03E machine)
     \<lparr>display := (replicate 2048 False)[62 := True, 63 := True, 64 := True, 65 := True]\<rparr>)"
  by (simp add: drawSprite_def drawSprite_row_def drawSprite_pixel_def toggleVPixel_def
      setRegister_def upt8 upt_rec [of 0 "nat 1"] font_read FONT_DATA_nth display_machine eval_simps)

text \<open>
  Past the bottom edge the element is outside the array and \<open>toggleVPixel\<close> throws:
  \<open>D012\<close> with \<open>V1 = 31\<close> draws its first row and stops at the second.
\<close>

lemma sprite_past_bottom_edge_throws:
  "drawSprite 0x012 (setRegister 0x11F machine) =
   Threw TypeError ((setRegister 0x11F machine)
     \<lparr>display := (replicate 2048 False)[1984 := True, 1985 := True, 1986 := True, 1987 := True]\<rparr>)"
  by (simp add: drawSprite_def drawSprite_row_def drawSprite_pixel_def toggleVPixel_def
      setRegister_def upt8 upt2 font_read FONT_DATA_nth display_machine eval_simps)

text \<open>The two loops of \<open>drawSprite\<close>, for a sprite inside the pixel array.\<close>

lemma drawSprite_pixel_effect:
  assumes "0 \<le> (y + int row) * 64 + (x + int col)"
    and "(y + int row) * 64 + (x + int col) < int (length (display s))"
  shows "\<exists>s'. drawSprite_pixel line x y row col s = Returned s' \<and>
           memory s' = memory s \<and> i s' = i s \<and>
           display s' =
             (if drop_bit (7 - col) line AND 1 = 1
              then (display s)[nat ((y + int row) * 64 + (x + int col)) :=
                     \<not> display s ! nat ((y + int row) * 64 + (x + int col))]
              else display s)"
  using assms by (simp add: drawSprite_pixel_def toggleVPixel_def Let_def)

lemma drawSprite_cols:
  assumes "0 \<le> x" and "0 \<le> y" and "b = nat ((y + int row) * 64 + x)"
    and "b + 8 \<le> length (display s)" and "n \<le> 8"
  shows "\<exists>s'. fold (\<lambda>col r. and_then r (drawSprite_pixel line x y row col)) [0..<n] (Returned s)
             = Returned s' \<and>
           memory s' = memory s \<and> i s' = i s \<and> length (display s') = length (display s) \<and>
           (\<forall>k<length (display s). display s' ! k =
              (display s ! k \<noteq> (b \<le> k \<and> k < b + n \<and> drop_bit (7 - (k - b)) line AND 1 = 1)))"
  using assms(5)
proof (induction n)
  case 0
  then show ?case by simp
next
  case (Suc n)
  then obtain s1 where s1:
    "fold (\<lambda>col r. and_then r (drawSprite_pixel line x y row col)) [0..<n] (Returned s) = Returned s1"
    "memory s1 = memory s" "i s1 = i s" "length (display s1) = length (display s)"
    "\<forall>k<length (display s). display s1 ! k =
        (display s ! k \<noteq> (b \<le> k \<and> k < b + n \<and> drop_bit (7 - (k - b)) line AND 1 = 1))"
    by auto
  have idx: "nat ((y + int row) * 64 + (x + int n)) = b + n"
    using assms(1,2,3) by (simp add: nat_add_distrib algebra_simps)
  have lo: "0 \<le> (y + int row) * 64 + (x + int n)" using assms(1,2) by simp
  have hi: "(y + int row) * 64 + (x + int n) < int (length (display s1))"
    using idx lo Suc.prems assms(4) s1(4) by linarith
  from drawSprite_pixel_effect [OF lo hi, of line] obtain s2 where s2:
    "drawSprite_pixel line x y row n s1 = Returned s2"
    "memory s2 = memory s1" "i s2 = i s1"
    "display s2 = (if drop_bit (7 - n) line AND 1 = 1
                   then (display s1)[b + n := \<not> display s1 ! (b + n)] else display s1)"
    unfolding idx by blast
  have bn: "b + n < length (display s)" using Suc.prems assms(4) by simp
  have "\<forall>k<length (display s). display s2 ! k =
        (display s ! k \<noteq> (b \<le> k \<and> k < b + Suc n \<and> drop_bit (7 - (k - b)) line AND 1 = 1))"
  proof (intro allI impI)
    fix k assume k: "k < length (display s)"
    show "display s2 ! k =
        (display s ! k \<noteq> (b \<le> k \<and> k < b + Suc n \<and> drop_bit (7 - (k - b)) line AND 1 = 1))"
    proof (cases "k = b + n")
      case True
      then show ?thesis using s1(4,5) s2(4) bn by auto
    next
      case False
      then have "(k < b + Suc n) = (k < b + n)" by auto
      moreover have "display s2 ! k = display s1 ! k" using False s2(4) by simp
      ultimately show ?thesis using s1(5) k by simp
    qed
  qed
  then show ?case using s1 s2 by (simp add: s1(1))
qed


lemma drawSprite_row_effect:
  assumes "0 \<le> x" and "0 \<le> y" and "b = nat ((y + int row) * 64 + x)"
    and "b + 8 \<le> length (display s)"
  shows "\<exists>s'. drawSprite_row x y row s = Returned s' \<and>
           memory s' = memory s \<and> i s' = i s \<and> length (display s') = length (display s) \<and>
           (\<forall>k<length (display s). display s' ! k =
              (display s ! k \<noteq> (b \<le> k \<and> k < b + 8 \<and>
                 drop_bit (7 - (k - b)) (toInt (ta_get (memory s) (i s + int row))) AND 1 = 1)))"
  unfolding drawSprite_row_def Let_def
  by (rule drawSprite_cols [OF assms]) simp

lemma cell_in_row_int:
  fixes x px py r :: int
  assumes "0 \<le> x" and "x + 8 \<le> 64" and "0 \<le> px" and "px < 64"
  shows "(r * 64 + x \<le> py * 64 + px \<and> py * 64 + px < r * 64 + x + 8) =
        (py = r \<and> x \<le> px \<and> px < x + 8)"
proof (cases "py < r")
  case True
  then have "py + 1 \<le> r" by simp
  then have "py * 64 + 64 \<le> r * 64" by simp
  then show ?thesis using assms True by auto
next
  case False
  show ?thesis
  proof (cases "py = r")
    case True
    then show ?thesis by auto
  next
    case ne: False
    then have "r + 1 \<le> py" using False by simp
    then have "r * 64 + 64 \<le> py * 64" by simp
    then show ?thesis using assms ne by auto
  qed
qed

lemma cell_in_row:
  fixes x px py r :: int
  assumes "0 \<le> x" and "x + 8 \<le> 64" and "0 \<le> px" and "px < 64" and "0 \<le> py" and "0 \<le> r"
  shows "(nat (r * 64 + x) \<le> nat (py * 64 + px) \<and> nat (py * 64 + px) < nat (r * 64 + x) + 8) =
         (py = r \<and> x \<le> px \<and> px < x + 8)"
proof -
  have nn: "0 \<le> r * 64 + x" "0 \<le> py * 64 + px" using assms by simp_all
  have le: "(nat (r * 64 + x) \<le> nat (py * 64 + px)) = (r * 64 + x \<le> py * 64 + px)"
    using nn by (simp add: nat_le_eq_zle)
  have "nat (r * 64 + x) + 8 = nat (r * 64 + x + 8)" using nn by simp
  then have less: "(nat (py * 64 + px) < nat (r * 64 + x) + 8) = (py * 64 + px < r * 64 + x + 8)"
    using nn by (simp add: nat_less_eq_zless)
  show ?thesis unfolding le less using cell_in_row_int [OF assms(1-4)] .
qed

lemma cell_offset:
  assumes "0 \<le> x" and "x \<le> px" and "0 \<le> r"
  shows "nat (r * 64 + px) - nat (r * 64 + x) = nat (px - x)"
  using assms by arith

lemma drawSprite_rows:
  assumes "0 \<le> x" and "x + 8 \<le> 64" and "0 \<le> y" and "y + int m \<le> 32"
    and "length (display s) = 2048"
  shows "\<exists>s'. fold (\<lambda>row r. and_then r (drawSprite_row x y row)) [0..<m] (Returned s) = Returned s' \<and>
           memory s' = memory s \<and> i s' = i s \<and> length (display s') = 2048 \<and>
           (\<forall>px py. 0 \<le> px \<and> px < 64 \<and> 0 \<le> py \<and> py < 32 \<longrightarrow>
              display s' ! nat (py * 64 + px) =
                (display s ! nat (py * 64 + px) \<noteq> sprite_covers s x y (int m) px py))"
  using assms(4)
proof (induction m)
  case 0
  then show ?case using assms(5) by (simp add: sprite_covers_def)
next
  case (Suc m)
  then obtain s1 where s1:
    "fold (\<lambda>row r. and_then r (drawSprite_row x y row)) [0..<m] (Returned s) = Returned s1"
    "memory s1 = memory s" "i s1 = i s" "length (display s1) = 2048"
    "\<forall>px py. 0 \<le> px \<and> px < 64 \<and> 0 \<le> py \<and> py < 32 \<longrightarrow>
        display s1 ! nat (py * 64 + px) =
          (display s ! nat (py * 64 + px) \<noteq> sprite_covers s x y (int m) px py)"
    by auto
  define b where "b = nat ((y + int m) * 64 + x)"
  have b8: "b + 8 \<le> length (display s1)"
    using assms(1-3) Suc.prems s1(4) by (simp add: b_def)
  from drawSprite_row_effect [OF assms(1,3) b_def b8] obtain s2 where s2:
    "drawSprite_row x y m s1 = Returned s2"
    "memory s2 = memory s1" "i s2 = i s1" "length (display s2) = length (display s1)"
    "\<forall>k<length (display s1). display s2 ! k =
        (display s1 ! k \<noteq> (b \<le> k \<and> k < b + 8 \<and>
           drop_bit (7 - (k - b)) (toInt (ta_get (memory s1) (i s1 + int m))) AND 1 = 1))"
    by blast
  have "\<forall>px py. 0 \<le> px \<and> px < 64 \<and> 0 \<le> py \<and> py < 32 \<longrightarrow>
        display s2 ! nat (py * 64 + px) =
          (display s ! nat (py * 64 + px) \<noteq> sprite_covers s x y (int (Suc m)) px py)"
  proof (intro allI impI)
    fix px py :: int
    assume c: "0 \<le> px \<and> px < 64 \<and> 0 \<le> py \<and> py < 32"
    let ?k = "nat (py * 64 + px)"
    have k: "?k < length (display s1)" using c s1(4) by arith
    have ym: "0 \<le> y + int m" using assms(3) by simp
    have in_row: "(b \<le> ?k \<and> ?k < b + 8) = (py = y + int m \<and> x \<le> px \<and> px < x + 8)"
      unfolding b_def using cell_in_row [OF assms(1,2) _ _ _ ym, of px py] c by simp
    have old: "display s1 ! ?k = (display s ! ?k \<noteq> sprite_covers s x y (int m) px py)"
      using s1(5) c by simp
    have new: "display s2 ! ?k =
        (display s1 ! ?k \<noteq> (b \<le> ?k \<and> ?k < b + 8 \<and>
           drop_bit (7 - (?k - b)) (toInt (ta_get (memory s) (i s + int m))) AND 1 = 1))"
      using s2(5) k by (simp add: s1(2,3))
    let ?bit = "drop_bit (7 - (?k - b)) (toInt (ta_get (memory s) (i s + int m))) AND 1 = 1"
    show "display s2 ! ?k = (display s ! ?k \<noteq> sprite_covers s x y (int (Suc m)) px py)"
    proof (cases "py = y + int m \<and> x \<le> px \<and> px < x + 8")
      case inside: True
      have not_before: "\<not> sprite_covers s x y (int m) px py"
        using inside by (simp add: sprite_covers_def)
      have "?k - b = nat (px - x)"
        unfolding b_def using cell_offset [OF assms(1) _ ym, of px] inside by simp
      then have "sprite_covers s x y (int (Suc m)) px py = ?bit"
        using inside assms(3) by (simp add: sprite_covers_def)
      moreover have "display s2 ! ?k = (display s1 ! ?k \<noteq> ?bit)"
        using new in_row inside by blast
      moreover have "display s1 ! ?k = display s ! ?k"
        using old not_before by blast
      ultimately show ?thesis by blast
    next
      case outside: False
      then have "sprite_covers s x y (int (Suc m)) px py = sprite_covers s x y (int m) px py"
        by (auto simp: sprite_covers_def)
      moreover have "display s2 ! ?k = display s1 ! ?k"
        using new in_row outside by blast
      ultimately show ?thesis using old by blast
    qed
  qed
  then show ?case using s1 s2 by (simp add: s1(1))
qed

text \<open>
  Away from the edges the instruction draws as it should. When the sprite lies within
  the display from its reduced origin \<open>x = VX mod 64\<close>, \<open>y = VY mod 32\<close>
  (\<open>x + 8 \<le> 64\<close> and \<open>y + n \<le> 32\<close>), the instruction returns normally and changes,
  among all pixels \<open>(px, py)\<close> of the display, exactly those where the sprite has a set
  bit, bit \<open>c\<close> of row \<open>r\<close> at \<open>(x + c, y + r)\<close>.
\<close>

lemma drawSprite_within_display:
  assumes "length (display s) = nat (vHeight * vWidth)"
    and "x = vreg s (splitArgs args XYZ ! 0) mod vWidth"
    and "y = vreg s (splitArgs args XYZ ! 1) mod vHeight"
    and "h = splitArgs args XYZ ! 2"
    and "x + 8 \<le> vWidth" and "y + h \<le> vHeight"
    and "0 \<le> px" and "px < vWidth" and "0 \<le> py" and "py < vHeight"
  shows "drawSprite args s = Returned (state_of (drawSprite args s)) \<and>
         display (state_of (drawSprite args s)) ! nat (py * vWidth + px) =
           (display s ! nat (py * vWidth + px) \<noteq> sprite_covers s x y h px py)"
proof -
  have x0: "0 \<le> x" and y0: "0 \<le> y" using assms(2,3) by simp_all
  have h0: "0 \<le> h" unfolding assms(4) by (simp add: Let_def)
  have yh: "y + int (nat h) \<le> 32" using assms(6) h0 by simp
  have len: "length (display s) = 2048" using assms(1) by simp
  from drawSprite_rows [OF x0 assms(5) y0 yh len] obtain s' where s':
    "fold (\<lambda>row r. and_then r (drawSprite_row x y row)) [0..<nat h] (Returned s) = Returned s'"
    "\<forall>px py. 0 \<le> px \<and> px < 64 \<and> 0 \<le> py \<and> py < 32 \<longrightarrow>
        display s' ! nat (py * 64 + px) =
          (display s ! nat (py * 64 + px) \<noteq> sprite_covers s x y (int (nat h)) px py)"
    by blast
  have "drawSprite args s = Returned s'"
    using s'(1) unfolding drawSprite_def Let_def assms(2,3,4) .
  then show ?thesis using s'(2) assms(7-10) h0 by simp
qed

text \<open>
  The glyph of 0 drawn at the origin of the blank display by \<open>D015\<close>: its first row is
  \<open>0xF0\<close>, so pixel \<open>(0, 0)\<close> is turned on and pixel \<open>(4, 0)\<close> stays off.
\<close>

lemma drawSprite_within_display_example:
  "length (display machine) = nat (vHeight * vWidth) \<and>
   vreg machine (splitArgs 0x015 XYZ ! 0) mod vWidth = 0 \<and>
   vreg machine (splitArgs 0x015 XYZ ! 1) mod vHeight = 0 \<and>
   splitArgs 0x015 XYZ ! 2 = 5 \<and>
   drawSprite 0x015 machine = Returned (state_of (drawSprite 0x015 machine)) \<and>
   display (state_of (drawSprite 0x015 machine)) ! 0 = True \<and>
   display (state_of (drawSprite 0x015 machine)) ! 4 = False"
proof -
  have len: "length (display machine) = nat (vHeight * vWidth)"
    by (simp add: display_machine)
  have x: "vreg machine (splitArgs 0x015 XYZ ! 0) mod vWidth = 0"
    and y: "vreg machine (splitArgs 0x015 XYZ ! 1) mod vHeight = 0"
    and h: "splitArgs 0x015 XYZ ! 2 = 5"
    by (simp_all add: eval_simps)
  have on: "sprite_covers machine 0 0 5 0 0" and off: "\<not> sprite_covers machine 0 0 5 4 0"
    by (simp_all add: sprite_covers_def font_read FONT_DATA_nth machine_fields)
  have px: "display machine ! 0 = False" "display machine ! 4 = False"
    by (simp_all add: display_machine)
  have "drawSprite 0x015 machine = Returned (state_of (drawSprite 0x015 machine)) \<and>
        display (state_of (drawSprite 0x015 machine)) ! nat (0 * vWidth + 0) =
          (display machine ! nat (0 * vWidth + 0) \<noteq> sprite_covers machine 0 0 5 0 0)"
    by (rule drawSprite_within_display [OF len x [symmetric] y [symmetric] h [symmetric]]) simp_all
  moreover have "display (state_of (drawSprite 0x015 machine)) ! nat (0 * vWidth + 4) =
          (display machine ! nat (0 * vWidth + 4) \<noteq> sprite_covers machine 0 0 5 4 0)"
    using drawSprite_within_display [OF len x [symmetric] y [symmetric] h [symmetric], of 4 0]
    by simp
  ultimately show ?thesis
    using len x y h on off px by simp
qed

section \<open>The registers are bytes\<close>

lemma list_all_u8_set [simp]:
  "list_all (\<lambda>x. 0 \<le> x \<and> x \<le> 255) xs \<Longrightarrow> list_all (\<lambda>x. 0 \<le> x \<and> x \<le> 255) (u8_set xs k x)"
  by (auto simp: u8_set_def toUint8_def list_all_iff dest!: set_update_subset_insert [THEN subsetD])

lemma regs_ok_v_update [simp]:
  "regs_ok (s\<lparr>v := xs\<rparr>) = (length xs = 16 \<and> list_all (\<lambda>x. 0 \<le> x \<and> x \<le> 255) xs)"
  by (simp add: regs_ok_def)

lemma regs_okD:
  "regs_ok s \<Longrightarrow> length (v s) = 16 \<and> list_all (\<lambda>x. 0 \<le> x \<and> x \<le> 255) (v s)"
  by (simp add: regs_ok_def)

lemma regs_ok_other_fields [simp]:
  "regs_ok (s\<lparr>pc := a\<rparr>) = regs_ok s"
  "regs_ok (s\<lparr>i := b\<rparr>) = regs_ok s"
  "regs_ok (s\<lparr>sp := c\<rparr>) = regs_ok s"
  "regs_ok (s\<lparr>stack := d\<rparr>) = regs_ok s"
  "regs_ok (s\<lparr>memory := e\<rparr>) = regs_ok s"
  "regs_ok (s\<lparr>display := f\<rparr>) = regs_ok s"
  "regs_ok (s\<lparr>delayTimer := g\<rparr>) = regs_ok s"
  "regs_ok (s\<lparr>soundTimer := h\<rparr>) = regs_ok s"
  "regs_ok (s\<lparr>awaitingKey := j\<rparr>) = regs_ok s"
  "regs_ok (s\<lparr>keypadRegister := k\<rparr>) = regs_ok s"
  "regs_ok (s\<lparr>pressedKeys := l\<rparr>) = regs_ok s"
  "regs_ok (s\<lparr>isBuzzing := m\<rparr>) = regs_ok s"
  "regs_ok (s\<lparr>toneRequests := n\<rparr>) = regs_ok s"
  by (simp_all add: regs_ok_def)

text \<open>A loop keeps the invariant when its body does, also a loop that may throw.\<close>

lemma regs_ok_fold:
  assumes "\<And>k t. regs_ok t \<Longrightarrow> regs_ok (f k t)" and "regs_ok s"
  shows "regs_ok (fold f ks s)"
  using assms(2) by (induction ks arbitrary: s) (simp_all add: assms(1))

lemma regs_ok_and_then:
  assumes "\<And>t. regs_ok t \<Longrightarrow> regs_ok (state_of (f t))" and "regs_ok (state_of r)"
  shows "regs_ok (state_of (and_then r f))"
  using assms by (cases r) simp_all

lemma regs_ok_fold_and_then:
  assumes "\<And>k t. regs_ok t \<Longrightarrow> regs_ok (state_of (f k t))" and "regs_ok (state_of r)"
  shows "regs_ok (state_of (fold (\<lambda>k r. and_then r (f k)) ks r))"
  using assms(2) by (induction ks arbitrary: r) (simp_all add: regs_ok_and_then assms(1))

lemma regs_ok_new_Chip8: "regs_ok (new_Chip8 d)"
  by (simp add: regs_ok_def new_Chip8_fields list_all_iff)

lemma regs_ok_reset: "regs_ok (reset s)"
  by (simp add: regs_ok_def reset_fields list_all_iff)

lemma regs_ok_loadROM: "regs_ok (loadROM rom s)"
  using regs_ok_reset [of s] by (simp add: loadROM_def Let_def)

lemma regs_ok_handleKeyDown: "regs_ok s \<Longrightarrow> regs_ok (handleKeyDown code s)"
  using regs_okD [of s] by (simp add: handleKeyDown_def Let_def split: option.splits)

lemma regs_ok_handleKeyUp: "regs_ok s \<Longrightarrow> regs_ok (handleKeyUp code s)"
  by (simp add: handleKeyUp_def split: option.splits)

lemma regs_ok_decrementTimers: "regs_ok s \<Longrightarrow> regs_ok (decrementTimers s)"
  by (simp add: decrementTimers_def stopBuzzer_def Let_def)

lemma regs_ok_readWord: "regs_ok s \<Longrightarrow> regs_ok (snd (readWord s))"
  by (simp add: readWord_def Let_def)

lemma regs_ok_callSubroutine: "regs_ok s \<Longrightarrow> regs_ok (callSubroutine args s)"
  by (simp add: callSubroutine_def Let_def)

lemma regs_ok_returnFromSubroutine: "regs_ok s \<Longrightarrow> regs_ok (returnFromSubroutine s)"
  by (simp add: returnFromSubroutine_def Let_def)

lemma regs_ok_skips:
  "regs_ok s \<Longrightarrow> regs_ok (skipIfVXeqNN args s)"
  "regs_ok s \<Longrightarrow> regs_ok (skipIfVXneqNN args s)"
  "regs_ok s \<Longrightarrow> regs_ok (skipIfVXeqVY args s)"
  "regs_ok s \<Longrightarrow> regs_ok (skipIfVXneqVY args s)"
  "regs_ok s \<Longrightarrow> regs_ok (inputBranching args s)"
  by (simp_all add: skipIfVXeqNN_def skipIfVXneqNN_def skipIfVXeqVY_def skipIfVXneqVY_def
      inputBranching_def Let_def)

lemma regs_ok_setRegister: "regs_ok s \<Longrightarrow> regs_ok (setRegister args s)"
  using regs_okD [of s] by (simp add: setRegister_def Let_def)

lemma regs_ok_addToRegister: "regs_ok s \<Longrightarrow> regs_ok (addToRegister args s)"
  using regs_okD [of s] by (simp add: addToRegister_def Let_def)

lemma regs_ok_randByte: "regs_ok s \<Longrightarrow> regs_ok (randByte rnd args s)"
  using regs_okD [of s] by (simp add: randByte_def Let_def)

lemma regs_ok_bitAndMathOps: "regs_ok s \<Longrightarrow> regs_ok (bitAndMathOps args s)"
  using regs_okD [of s] unfolding bitAndMathOps_def Let_def by (simp del: splitArgs.simps)

lemma regs_ok_drawSprite_pixel:
  "regs_ok s \<Longrightarrow> regs_ok (state_of (drawSprite_pixel line x y row col s))"
  using regs_okD [of s]
  by (simp add: drawSprite_pixel_def Let_def split: option.splits prod.splits)

lemma regs_ok_drawSprite_row: "regs_ok s \<Longrightarrow> regs_ok (state_of (drawSprite_row x y row s))"
  unfolding drawSprite_row_def Let_def
  by (rule regs_ok_fold_and_then) (simp_all add: regs_ok_drawSprite_pixel)

lemma regs_ok_drawSprite: "regs_ok s \<Longrightarrow> regs_ok (state_of (drawSprite args s))"
  unfolding drawSprite_def Let_def
  by (rule regs_ok_fold_and_then) (simp_all add: regs_ok_drawSprite_row)

lemma regs_ok_regDump: "regs_ok s \<Longrightarrow> regs_ok (regDump stopIdx s)"
  unfolding regDump_def by (rule regs_ok_fold) (simp_all add: Let_def)

lemma regs_ok_regLoad: "regs_ok s \<Longrightarrow> regs_ok (regLoad stopIdx s)"
proof -
  have "regs_ok (t\<lparr>v := u8_set (v t) a b\<rparr>)" if "regs_ok t" for t a b
    using regs_okD [OF that] by simp
  then show "regs_ok s \<Longrightarrow> regs_ok (regLoad stopIdx s)"
    unfolding regLoad_def by (intro regs_ok_fold) (simp_all add: Let_def)
qed

lemma regs_ok_setBCD: "regs_ok s \<Longrightarrow> regs_ok (setBCD vIdx s)"
  by (simp add: setBCD_def Let_def)

lemma regs_ok_miscOps: "regs_ok s \<Longrightarrow> regs_ok (miscOps args s)"
  using regs_okD [of s] unfolding miscOps_def Let_def
  by (simp add: regs_ok_setBCD regs_ok_regDump regs_ok_regLoad startBuzzer_def del: splitArgs.simps)

lemma regs_ok_step: "regs_ok s \<Longrightarrow> regs_ok (state_of (step rnd s))"
  unfolding step_def Let_def
  by (simp add: regs_ok_readWord regs_ok_callSubroutine regs_ok_returnFromSubroutine
      regs_ok_skips regs_ok_setRegister regs_ok_addToRegister regs_ok_randByte
      regs_ok_bitAndMathOps regs_ok_drawSprite regs_ok_miscOps)

lemma regs_ok_perform: "regs_ok s \<Longrightarrow> regs_ok (perform op s)"
  by (cases op)
    (simp_all add: regs_ok_step regs_ok_decrementTimers regs_ok_handleKeyDown
      regs_ok_handleKeyUp regs_ok_reset regs_ok_loadROM)

text \<open>
  C10. Construct the emulator on any display and perform any sequence of public
  operations, with any ROMs, key codes and random draws (a \<open>step\<close> that throws included):
  afterwards there are sixteen registers and each holds an integer from 0 to 255. Every
  write to a register, the immediate add and the arithmetic of \<open>8xyN\<close> among them, goes
  through the conversion to eight bits.
\<close>

theorem registers_stay_bytes: "regs_ok (run ops (new_Chip8 d))"
  unfolding run_def by (rule regs_ok_fold) (simp_all add: regs_ok_perform regs_ok_new_Chip8)

end
